theory Spec2Isabelle
  imports Main
begin

section \<open>Wall-clock time\<close>

text \<open>
  A JavaScript \<^verbatim>\<open>Date\<close> is a count of milliseconds. The scheduler reads and writes it
  through the local-time accessors; the model is a zone without daylight-saving
  changes, so the local fields are the digits of the millisecond count.
  \<^verbatim>\<open>setHours\<close> and \<^verbatim>\<open>setMinutes\<close> accept a field beyond its range and carry it over.
\<close>

type_synonym date = int

definition getHours :: "date \<Rightarrow> int" where
  "getHours d = (d div 3600000) mod 24"

definition getMinutes :: "date \<Rightarrow> int" where
  "getMinutes d = (d div 60000) mod 60"

definition getSeconds :: "date \<Rightarrow> int" where
  "getSeconds d = (d div 1000) mod 60"

definition getMilliseconds :: "date \<Rightarrow> int" where
  "getMilliseconds d = d mod 1000"

definition setHours :: "date \<Rightarrow> int \<Rightarrow> date" where
  "setHours d h = d + (h - getHours d) * 3600000"

definition setMinutes :: "date \<Rightarrow> int \<Rightarrow> date" where
  "setMinutes d m = d + (m - getMinutes d) * 60000"

definition setSeconds :: "date \<Rightarrow> int \<Rightarrow> date" where
  "setSeconds d s = d + (s - getSeconds d) * 1000"

definition setMilliseconds :: "date \<Rightarrow> int \<Rightarrow> date" where
  "setMilliseconds d ms = d + (ms - getMilliseconds d)"

text \<open>\<^verbatim>\<open>Math.ceil(a / b)\<close> on integers, for a positive divisor.\<close>

definition math_ceil_div :: "int \<Rightarrow> int \<Rightarrow> int" where
  "math_ceil_div a b = - ((- a) div b)"

text \<open>A wall-clock instant given by day, hour, minute, second and millisecond.\<close>

definition at_time :: "int \<Rightarrow> int \<Rightarrow> int \<Rightarrow> int \<Rightarrow> int \<Rightarrow> date" where
  "at_time day h m s ms = (((day * 24 + h) * 60 + m) * 60 + s) * 1000 + ms"

section \<open>Scheduler: the 15-minute grid\<close>

text \<open>
  \<^verbatim>\<open>getNextCheckTime(skipCount)\<close> of the event handler. The current time, which the
  source reads with \<^verbatim>\<open>new Date()\<close>, is the second argument.
\<close>

definition getNextCheckTime :: "nat \<Rightarrow> date \<Rightarrow> date" where
  "getNextCheckTime skipCount now =
     (let minutes = getMinutes now;
          nextMinutes = math_ceil_div minutes 15 * 15 + int skipCount * 15;
          next0 = now;
          hoursToAdd = nextMinutes div 60;
          finalMinutes = nextMinutes mod 60;
          next1 = setHours next0 (getHours next0 + hoursToAdd);
          next2 = setMinutes next1 finalMinutes;
          next3 = setSeconds next2 0;
          next4 = setMilliseconds next3 0
      in next4)"

text \<open>The grid lines are the multiples of 15 minutes.\<close>

definition grid_line :: "date \<Rightarrow> bool" where
  "grid_line d = (d mod 900000 = 0)"

lemma getMinutes_add_hours: "getMinutes (d + x * 3600000) = getMinutes d"
proof -
  have "(d + x * 3600000) div 60000 = d div 60000 + x * 60"
    by simp
  moreover have "(d div 60000 + x * 60) mod 60 = (d div 60000) mod 60"
    by presburger
  ultimately show ?thesis
    by (simp only: getMinutes_def)
qed

lemma getMinutes_setHours: "getMinutes (setHours d h) = getMinutes d"
  by (simp only: setHours_def getMinutes_add_hours)

lemma floor_to_minute:
  "setMilliseconds (setSeconds d 0) 0 = (d div 60000) * 60000"
proof -
  define a where "a = d div 1000"
  define r where "r = d mod 1000"
  have d: "d = a * 1000 + r"
    by (simp add: a_def r_def)
  have r: "0 \<le> r" "r < 1000"
    by (simp_all add: r_def)
  have "a - a mod 60 = (a div 60) * 60"
    by (simp add: minus_mod_eq_div_mult)
  then have s: "setSeconds d 0 = (a div 60) * 60000 + r"
    unfolding setSeconds_def getSeconds_def a_def [symmetric] by (simp add: d)
  have "((a div 60) * 60000 + r) mod 1000 = r"
  proof -
    have e: "(a div 60) * 60000 + r = (a div 60 * 60) * 1000 + r"
      by simp
    have "((a div 60) * 60000 + r) mod 1000 = r mod 1000"
      unfolding e by (rule mod_mult_self3)
    then show ?thesis using r by simp
  qed
  then have "setMilliseconds (setSeconds d 0) 0 = (a div 60) * 60000"
    by (simp add: setMilliseconds_def getMilliseconds_def s)
  moreover have "a div 60 = d div 60000"
  proof -
    have "d div (1000 * 60) = d div 1000 div 60"
      by (rule zdiv_zmult2_eq) simp
    then show ?thesis by (simp add: a_def)
  qed
  ultimately show ?thesis by simp
qed

lemma getNextCheckTime_closed:
  "getNextCheckTime k now =
     (now div 60000 - getMinutes now + math_ceil_div (getMinutes now) 15 * 15 + int k * 15) * 60000"
proof -
  define m where "m = getMinutes now"
  define n where "n = math_ceil_div m 15 * 15 + int k * 15"
  define d1 where "d1 = setHours now (getHours now + n div 60)"
  define d2 where "d2 = setMinutes d1 (n mod 60)"
  have d1: "d1 = now + (n div 60) * 3600000"
    by (simp add: d1_def setHours_def)
  have m1: "getMinutes d1 = m"
    by (simp only: d1_def m_def getMinutes_setHours)
  have "d2 = d1 + (n mod 60 - m) * 60000"
    by (simp only: d2_def setMinutes_def m1)
  then have d2: "d2 = now + (n div 60) * 3600000 + (n mod 60 - m) * 60000"
    by (simp only: d1)
  have "(n div 60) * 3600000 + (n mod 60) * 60000 = (n div 60 * 60 + n mod 60) * 60000"
    by (simp only: distrib_right mult.assoc)
  then have "(n div 60) * 3600000 + (n mod 60) * 60000 = n * 60000"
    by simp
  then have d2': "d2 = now + (n - m) * 60000"
    by (simp add: d2 algebra_simps)
  have "d2 div 60000 = now div 60000 + (n - m)"
    by (simp add: d2')
  then have "setMilliseconds (setSeconds d2 0) 0 = (now div 60000 + (n - m)) * 60000"
    by (simp only: floor_to_minute)
  moreover have "getNextCheckTime k now = setMilliseconds (setSeconds d2 0) 0"
    by (simp add: getNextCheckTime_def Let_def d2_def d1_def n_def m_def)
  ultimately show ?thesis
    by (simp add: n_def m_def algebra_simps)
qed

lemma ceil15_minutes:
  "M - M mod 60 + math_ceil_div (M mod 60) 15 * 15 = math_ceil_div M 15 * 15"
proof -
  have "- M = - (M mod 60) + (- (M div 60) * 4) * 15"
  proof -
    have "M = M div 60 * 60 + M mod 60" by simp
    then show ?thesis by linarith
  qed
  then have "(- M) div 15 = (- (M mod 60) + (- (M div 60) * 4) * 15) div 15"
    by simp
  also have "\<dots> = (- (M mod 60)) div 15 + (- (M div 60) * 4)"
    by simp
  finally have "math_ceil_div M 15 = math_ceil_div (M mod 60) 15 + (M div 60) * 4"
    by (simp add: math_ceil_div_def)
  moreover have "M - M mod 60 = (M div 60) * 60"
    by (simp add: minus_mod_eq_div_mult)
  ultimately show ?thesis by simp
qed

lemma getNextCheckTime_grid:
  "getNextCheckTime k now = (math_ceil_div (now div 60000) 15 + int k) * 900000"
proof -
  have "now div 60000 - getMinutes now + math_ceil_div (getMinutes now) 15 * 15
        = math_ceil_div (now div 60000) 15 * 15"
    unfolding getMinutes_def by (rule ceil15_minutes)
  then show ?thesis
    by (simp add: getNextCheckTime_closed algebra_simps)
qed

lemma getNextCheckTime_Suc:
  "getNextCheckTime (Suc k) now = getNextCheckTime k now + 900000"
  by (simp add: getNextCheckTime_grid algebra_simps)

section \<open>Persisted state and the process\<close>

text \<open>
  The three tables of the SQLite database, and the state of the process: the wall
  clock that \<^verbatim>\<open>Date.now()\<close> reads, the fields of the \<^verbatim>\<open>TwitterIntegration\<close> singleton,
  the database, and the requests sent to source A so far. A statement on a database
  that is not \<open>connected\<close> fails.

  The functions of the database module work on the module's own variable \<^verbatim>\<open>db\<close>,
  which \<^verbatim>\<open>initializeDatabase()\<close> assigns; \<open>db\<close> below is what they see. The module of
  \<^verbatim>\<open>TwitterIntegration\<close> also takes \<^verbatim>\<open>db\<close> itself from the exports of the database
  module, once, when it is loaded: \<open>integration_db\<close> says whether that constant holds
  the database handle or is undefined.
\<close>

datatype error = DatabaseError | GuildIdRequired

record twitter_account =
  account_handle :: string
  last_tweet_id :: "string option"

record youtube_channel =
  channel_id :: string
  last_video_id :: "string option"

record guild_channels =
  guild_id :: string
  twitter_channel_id :: "string option"
  youtube_channel_id :: "string option"

record database =
  connected :: bool
  twitter_accounts :: "twitter_account list"
  youtube_channels :: "youtube_channel list"
  discord_channels :: "guild_channels list"

record process =
  clock :: date
  remaining :: int
  resetAt :: date
  lastReset :: date
  backoffTime :: int
  lastRequestTime :: date
  requestCount :: int
  db :: database
  integration_db :: bool
  requests :: "(string \<times> string option) list"

text \<open>The settings of the \<^verbatim>\<open>TwitterIntegration\<close> constructor, in milliseconds and requests.\<close>

definition minRequestInterval :: int where "minRequestInterval = 10000"
definition maxRequestsPerBatch :: int where "maxRequestsPerBatch = 5"
definition batchInterval :: int where "batchInterval = 60000"
definition bufferThreshold :: int where "bufferThreshold = 100"

text \<open>
  \<^verbatim>\<open>await new Promise(resolve => setTimeout(resolve, ms))\<close>: the caller resumes when
  the timer fires. The model resumes at the earliest instant, \<open>ms\<close> later.
\<close>

definition sleep :: "int \<Rightarrow> process \<Rightarrow> process" where
  "sleep ms p = p\<lparr>clock := clock p + max ms 0\<rparr>"

text \<open>The backoff step of \<^verbatim>\<open>handleRateLimit\<close>: 10 seconds first, then doubled up to 5 minutes.\<close>

definition nextBackoff :: "int \<Rightarrow> int" where
  "nextBackoff b = (if b = 0 then 10000 else min (b * 2) 300000)"

text \<open>
  \<^verbatim>\<open>handleRateLimit\<close>, the gate of the poller, with the value it resolves to and the
  state it leaves. The checks read the snapshot \<^verbatim>\<open>state\<close> taken on entry; the counts
  are integers, as \<^verbatim>\<open>parseInt\<close> gives them for the decimal headers of the upstream.
  The last branch calls the gate again after the backoff wait; it needs
  \<open>remaining > 100\<close> to pass the buffer check and \<open>remaining \<le> 0\<close> to fail the next
  one, which is why the recursion ends.
\<close>

function handleRateLimit :: "process \<Rightarrow> bool \<times> process" where
  "handleRateLimit p =
     (let now = clock p;
          timeSinceLastRequest = now - lastRequestTime p;
          st_remaining = remaining p;
          st_resetAt = resetAt p;
          st_requestCount = requestCount p;
          p1 = (if timeSinceLastRequest < minRequestInterval
                then sleep (minRequestInterval - timeSinceLastRequest) p else p)
      in if maxRequestsPerBatch \<le> st_requestCount then
           (let p2 = sleep batchInterval p1
            in (True, p2\<lparr>requestCount := 0, lastRequestTime := clock p2\<rparr>))
         else if st_resetAt \<le> now then
           (True, p1\<lparr>remaining := 180, resetAt := now + 900000, lastReset := now,
                      backoffTime := 0, requestCount := 0\<rparr>)
         else if st_remaining \<le> bufferThreshold then
           (let p2 = sleep (st_resetAt - now + 5000) p1
            in (True, p2\<lparr>requestCount := 0, backoffTime := 0, remaining := 180,
                         resetAt := clock p2 + 900000\<rparr>))
         else if 0 < st_remaining then
           (True, p1\<lparr>requestCount := requestCount p1 + 1\<rparr>)
         else
           (let p2 = p1\<lparr>backoffTime := nextBackoff (backoffTime p1)\<rparr>
            in handleRateLimit (sleep (backoffTime p2) p2)))"
  by pat_completeness auto
termination
  apply (relation "{}")
  apply simp
  apply (simp add: bufferThreshold_def)
  done

declare handleRateLimit.simps [simp del]

text \<open>
  The state after the module of \<^verbatim>\<open>TwitterIntegration\<close> has been loaded and its
  constructor has run at time \<open>now\<close>, in a process that works on the database \<open>d\<close>.
  \<^verbatim>\<open>index.js\<close> requires the event handler, and with it this module, in its first
  lines, and calls \<^verbatim>\<open>initializeDatabase()\<close> later: when the module takes \<^verbatim>\<open>db\<close> from
  the exports of the database module, the getter still returns \<open>undefined\<close>.
\<close>

definition constructor :: "date \<Rightarrow> database \<Rightarrow> process" where
  "constructor now d =
     \<lparr>clock = now, remaining = 180, resetAt = now + 900000, lastReset = now,
      backoffTime = 0, lastRequestTime = 0, requestCount = 0, db = d,
      integration_db = False, requests = []\<rparr>"

text \<open>The statements of the database module on the table of source-A entities.\<close>

definition verifyDatabaseConnection :: "database \<Rightarrow> error + bool" where
  "verifyDatabaseConnection d = (if connected d then Inr True else Inl DatabaseError)"

definition getAllTwitterAccounts :: "database \<Rightarrow> error + twitter_account list" where
  "getAllTwitterAccounts d = (if connected d then Inr (twitter_accounts d) else Inl DatabaseError)"

definition updateLastTweetId :: "string \<Rightarrow> string \<Rightarrow> database \<Rightarrow> error + database" where
  "updateLastTweetId handle tweetId d =
     (if connected d
      then Inr (d\<lparr>twitter_accounts :=
                  map (\<lambda>r. if account_handle r = handle then r\<lparr>last_tweet_id := Some tweetId\<rparr> else r)
                    (twitter_accounts d)\<rparr>)
      else Inl DatabaseError)"

text \<open>
  \<^verbatim>\<open>canProcessAccounts\<close>, the pre-check of the scheduler; an error of the database makes
  it answer \<open>false\<close>.
\<close>

definition canProcessAccounts :: "process \<Rightarrow> bool" where
  "canProcessAccounts p =
     (case getAllTwitterAccounts (db p) of
        Inl e \<Rightarrow> False
      | Inr accounts \<Rightarrow>
          (let requiredRequests = int (length accounts);
               now = clock p
           in if 0 < backoffTime p then False
              else if maxRequestsPerBatch \<le> requestCount p then False
              else (let neededWithBuffer = requiredRequests + 5
                    in if remaining p < neededWithBuffer \<and> 60000 < resetAt p - now
                       then False else True)))"

text \<open>
  The loop of \<^verbatim>\<open>findNextViableCheckTime\<close> on its two variables: while the candidate
  lies before the reset time plus one minute, count one more interval and take the
  tick that many intervals later.
\<close>

function skipAhead :: "date \<Rightarrow> date \<Rightarrow> nat \<times> date \<Rightarrow> nat \<times> date" where
  "skipAhead now rl_resetAt (skipCount, nextCheck) =
     (if nextCheck < rl_resetAt + 60000
      then skipAhead now rl_resetAt (Suc skipCount, getNextCheckTime (Suc skipCount) now)
      else (skipCount, nextCheck))"
  by pat_completeness auto

termination skipAhead
proof (relation "measure (\<lambda>(now, r, k, nc).
         if nc < r + 60000 then Suc (nat (r + 60000 - getNextCheckTime (Suc k) now)) else 0)")
  show "wf (measure (\<lambda>(now, r, k, nc).
         if nc < r + 60000 then Suc (nat (r + 60000 - getNextCheckTime (Suc k) now)) else 0))"
    by simp
next
  fix now rl_resetAt :: date and skipCount :: nat and nextCheck :: date
  assume "nextCheck < rl_resetAt + 60000"
  then show "((now, rl_resetAt, Suc skipCount, getNextCheckTime (Suc skipCount) now),
              (now, rl_resetAt, skipCount, nextCheck))
             \<in> measure (\<lambda>(now, r, k, nc).
                 if nc < r + 60000 then Suc (nat (r + 60000 - getNextCheckTime (Suc k) now)) else 0)"
    by (simp add: getNextCheckTime_Suc [of "Suc skipCount" now])
qed

declare skipAhead.simps [simp del]

text \<open>
  \<^verbatim>\<open>findNextViableCheckTime\<close>, with the number of skipped intervals it logs. The
  successive \<^verbatim>\<open>new Date()\<close> readings of the loop are one instant.
\<close>

definition findNextViable :: "process \<Rightarrow> nat \<times> date" where
  "findNextViable p =
     (let skipCount = 0;
          nextCheck = getNextCheckTime skipCount (clock p);
          rateLimitInfo_resetAt = resetAt p
      in if \<not> canProcessAccounts p
         then skipAhead (clock p) rateLimitInfo_resetAt (skipCount, nextCheck)
         else (skipCount, nextCheck))"

definition findNextViableCheckTime :: "process \<Rightarrow> date" where
  "findNextViableCheckTime p = snd (findNextViable p)"

definition skippedIntervals :: "process \<Rightarrow> nat" where
  "skippedIntervals p = fst (findNextViable p)"

section \<open>Source A: the upstream and the poller\<close>

text \<open>
  The answer of the search endpoint: the two rate-limit headers (absent, or a decimal
  count), the items newest first (\<^verbatim>\<open>data\<close>, which may be missing) and the expansions
  (\<^verbatim>\<open>includes\<close> with its \<^verbatim>\<open>media\<close> and \<^verbatim>\<open>users\<close>, each of which may be missing).
  A request ends with status 200, with status 429 and an optional retry-after header in
  seconds, or with any other failure. The upstream is a function of the handle and the
  \<^verbatim>\<open>since_id\<close> of the request.
\<close>

record tweet =
  tweet_id :: string
  tweet_text :: string
  author_id :: string
  media_keys :: "string list option"

record user =
  user_id :: string
  username :: string

record media =
  media_key :: string
  media_url :: "string option"

record included_objects =
  inc_media :: "media list option"
  inc_users :: "user list option"

record search_response =
  rate_limit_remaining :: "nat option"
  rate_limit_reset :: "nat option"
  data :: "tweet list option"
  included :: "included_objects option"

datatype http_result =
    Http200 search_response
  | Http429 "nat option"
  | HttpFailure

type_synonym upstream = "string \<Rightarrow> string option \<Rightarrow> http_result"

text \<open>
  What \<^verbatim>\<open>fetchTweets\<close> returns for one item, and the same with the handle that
  \<^verbatim>\<open>checkNewTweets\<close> adds.
\<close>

record fetched =
  tweet :: tweet
  author :: "user option"
  attached :: "media option list option"

record tweet_data = fetched +
  account :: string

text \<open>\<^verbatim>\<open>mediaMap.get(key)\<close>: the last medium stored under the key, if any.\<close>

definition mediaMap_get :: "media list \<Rightarrow> string \<Rightarrow> media option" where
  "mediaMap_get ms key = (case filter (\<lambda>m. media_key m = key) ms of [] \<Rightarrow> None | xs \<Rightarrow> Some (last xs))"

text \<open>
  The two updates of the tracker from an upstream answer: from the headers of a 200,
  and from a 429.
\<close>

definition recordResponse :: "search_response \<Rightarrow> process \<Rightarrow> process" where
  "recordResponse r p =
     p\<lparr>remaining := (case rate_limit_remaining r of None \<Rightarrow> 0 | Some n \<Rightarrow> int n),
       resetAt := (case rate_limit_reset r of None \<Rightarrow> 0 | Some n \<Rightarrow> int n) * 1000\<rparr>"

definition recordThrottled :: "nat option \<Rightarrow> process \<Rightarrow> process" where
  "recordThrottled retryAfter p =
     p\<lparr>remaining := 0,
       resetAt := clock p + (case retryAfter of None \<Rightarrow> 900 | Some n \<Rightarrow> int n) * 1000\<rparr>"

text \<open>
  The operations that change the tracker: the gate, the stamp of the request time
  before the upstream call, the two recordings of an upstream answer, the backoff
  step, and the passing of time between them. The source takes the backoff step
  inside the gate only; as an operation of its own it may stand anywhere in a run.
\<close>

datatype tracker_op =
    Gate
  | StampRequest
  | Response search_response
  | Throttled "nat option"
  | Backoff
  | Elapse nat

fun tracker_step :: "tracker_op \<Rightarrow> process \<Rightarrow> process" where
  "tracker_step Gate p = snd (handleRateLimit p)"
| "tracker_step StampRequest p = p\<lparr>lastRequestTime := clock p\<rparr>"
| "tracker_step (Response r) p = recordResponse r p"
| "tracker_step (Throttled retryAfter) p = recordThrottled retryAfter p"
| "tracker_step Backoff p = p\<lparr>backoffTime := nextBackoff (backoffTime p)\<rparr>"
| "tracker_step (Elapse ms) p = p\<lparr>clock := clock p + int ms\<rparr>"

fun run_ops :: "tracker_op list \<Rightarrow> process \<Rightarrow> process" where
  "run_ops [] p = p"
| "run_ops (x # xs) p = run_ops xs (tracker_step x p)"

text \<open>The entry built for one item: its media by key, its author by id.\<close>

definition attach :: "included_objects \<Rightarrow> user list \<Rightarrow> tweet \<Rightarrow> fetched" where
  "attach inc users t =
     (let mediaMap = (case inc_media inc of None \<Rightarrow> [] | Some ms \<Rightarrow> ms);
          tweet_media = (case media_keys t of None \<Rightarrow> None
                         | Some keys \<Rightarrow> Some (map (mediaMap_get mediaMap) keys))
      in \<lparr>tweet = t, author = find (\<lambda>u. user_id u = author_id t) users, attached = tweet_media\<rparr>)"

text \<open>
  \<^verbatim>\<open>fetchTweets\<close>. Every exception of the body is caught and makes the result
  \<open>null\<close>: a rejected request, a failed cursor update, and the \<^verbatim>\<open>TypeError\<close> of
  reading \<^verbatim>\<open>includes.users\<close> when it is missing, which comes after the cursor update.
\<close>

definition fetchTweets ::
  "upstream \<Rightarrow> twitter_account \<Rightarrow> process \<Rightarrow> fetched list option \<times> process" where
  "fetchTweets api acct p =
     (case handleRateLimit p of
        (False, p1) \<Rightarrow> (None, p1)
      | (True, p1) \<Rightarrow>
          (let p2 = p1\<lparr>lastRequestTime := clock p1,
                        requests := requests p1 @ [(account_handle acct, last_tweet_id acct)]\<rparr>
           in case api (account_handle acct) (last_tweet_id acct) of
                Http200 response \<Rightarrow>
                  (let p3 = recordResponse response p2
                   in case data response of
                        None \<Rightarrow> (None, p3)
                      | Some [] \<Rightarrow> (None, p3)
                      | Some (newest # older) \<Rightarrow>
                          (case updateLastTweetId (account_handle acct) (tweet_id newest) (db p3) of
                             Inl e \<Rightarrow> (None, p3)
                           | Inr d \<Rightarrow>
                               (let p4 = p3\<lparr>db := d\<rparr>
                                in case included response of
                                     None \<Rightarrow> (None, p4)
                                   | Some inc \<Rightarrow>
                                       (case inc_users inc of
                                          None \<Rightarrow> (None, p4)
                                        | Some users \<Rightarrow>
                                            (Some (map (attach inc users) (newest # older)), p4)))))
              | Http429 retryAfter \<Rightarrow> (None, recordThrottled retryAfter p2)
              | HttpFailure \<Rightarrow> (None, p2)))"

text \<open>
  \<^verbatim>\<open>verifyChannelConfigurations\<close>: the guilds with a source-A channel. It calls
  \<^verbatim>\<open>db.all\<close> on the constant \<^verbatim>\<open>db\<close> of its own module. When that constant is
  undefined the call throws a \<^verbatim>\<open>TypeError\<close>; this and an error of the statement are
  caught, and the result is the empty list.
\<close>

definition verifyChannelConfigurations :: "process \<Rightarrow> guild_channels list" where
  "verifyChannelConfigurations p =
     (if integration_db p \<and> connected (db p)
      then filter (\<lambda>g. twitter_channel_id g \<noteq> None) (discord_channels (db p))
      else [])"

definition with_account :: "twitter_account \<Rightarrow> fetched \<Rightarrow> tweet_data" where
  "with_account acct t = fetched.extend t \<lparr>account = account_handle acct\<rparr>"

text \<open>
  The loop of \<^verbatim>\<open>checkNewTweets\<close> over the accounts read at its start, with the delay
  between two accounts, and \<^verbatim>\<open>checkNewTweets\<close> itself.
\<close>

fun pollAccounts ::
  "upstream \<Rightarrow> twitter_account list \<Rightarrow> process \<Rightarrow> tweet_data list \<times> process" where
  "pollAccounts api [] p = ([], p)"
| "pollAccounts api (acct # rest) p =
     (case fetchTweets api acct p of
        (tweets, p1) \<Rightarrow>
          (let found = (case tweets of None \<Rightarrow> [] | Some ts \<Rightarrow> map (with_account acct) ts);
               p2 = (if rest \<noteq> [] then sleep minRequestInterval p1 else p1)
           in case pollAccounts api rest p2 of
                (later, p3) \<Rightarrow> (found @ later, p3)))"

definition checkNewTweets :: "upstream \<Rightarrow> process \<Rightarrow> tweet_data list \<times> process" where
  "checkNewTweets api p =
     (case verifyDatabaseConnection (db p) of
        Inl e \<Rightarrow> ([], p)
      | Inr ok \<Rightarrow>
          (case getAllTwitterAccounts (db p) of
             Inl e \<Rightarrow> ([], p)
           | Inr accounts \<Rightarrow>
               (let guilds = verifyChannelConfigurations p
                in if length guilds = 0 then ([], p)
                   else pollAccounts api accounts p)))"

text \<open>
  The dispatch loop of \<^verbatim>\<open>runChecks\<close>. \<^verbatim>\<open>sendTwitterUpdate\<close> reads
  \<^verbatim>\<open>author.username\<close> first, which throws when the author is undefined; what follows
  (rendering and the fan-out to the guilds) belongs to the chat platform and is the
  parameter \<open>deliver\<close>, false when it throws. The handler of a failed send logs
  \<^verbatim>\<open>tweetData.author.username\<close>: with an undefined author the handler throws itself
  and the loop is left. The result is the items handed to \<^verbatim>\<open>sendTwitterUpdate\<close> and
  whether the loop ran to its end.
\<close>

definition sendTwitterUpdate :: "(tweet_data \<Rightarrow> bool) \<Rightarrow> tweet_data \<Rightarrow> bool" where
  "sendTwitterUpdate deliver td = (case author td of None \<Rightarrow> False | Some a \<Rightarrow> deliver td)"

fun dispatchTweets :: "(tweet_data \<Rightarrow> bool) \<Rightarrow> tweet_data list \<Rightarrow> tweet_data list \<times> bool" where
  "dispatchTweets deliver [] = ([], True)"
| "dispatchTweets deliver (td # rest) =
     (if sendTwitterUpdate deliver td
      then (case dispatchTweets deliver rest of (handed, finished) \<Rightarrow> (td # handed, finished))
      else (case author td of
              None \<Rightarrow> ([td], False)
            | Some a \<Rightarrow>
                (case dispatchTweets deliver rest of (handed, finished) \<Rightarrow> (td # handed, finished))))"

section \<open>Source B: the upstream and the poller\<close>

text \<open>
  The three lookups of source B. Each is rejected or answers with its \<^verbatim>\<open>items\<close>, which
  may be missing: the channels of an id, the video ids of an uploads playlist, the
  videos of a list of ids. \<open>publishedAt\<close> is the parsed publication time, absent when
  the string does not parse.
\<close>

record yt_channel =
  yt_id :: string
  yt_title :: string
  uploads :: string

record video =
  video_id :: string
  video_title :: string
  publishedAt :: "date option"

datatype 'a api_result = Responded 'a | Rejected

record youtube_api =
  get_channels :: "string \<Rightarrow> yt_channel list option api_result"
  get_playlistItems :: "string \<Rightarrow> string list option api_result"
  get_videos :: "string list \<Rightarrow> video list option api_result"

text \<open>\<^verbatim>\<open>fetchLatestVideos\<close>: \<open>null\<close> on every failure and on an empty lookup.\<close>

definition fetchLatestVideos :: "youtube_api \<Rightarrow> string \<Rightarrow> (yt_channel \<times> video list) option" where
  "fetchLatestVideos api channelId =
     (case get_channels api channelId of
        Rejected \<Rightarrow> None
      | Responded None \<Rightarrow> None
      | Responded (Some []) \<Rightarrow> None
      | Responded (Some (channel # others)) \<Rightarrow>
          (let uploadsPlaylistId = uploads channel
           in case get_playlistItems api uploadsPlaylistId of
                Rejected \<Rightarrow> None
              | Responded None \<Rightarrow> None
              | Responded (Some []) \<Rightarrow> None
              | Responded (Some videoIds) \<Rightarrow>
                  (case get_videos api videoIds of
                     Rejected \<Rightarrow> None
                   | Responded None \<Rightarrow> None
                   | Responded (Some videos) \<Rightarrow> Some (channel, videos))))"

text \<open>The statements of the database module on the table of source-B entities.\<close>

definition getAllYoutubeChannels :: "database \<Rightarrow> error + youtube_channel list" where
  "getAllYoutubeChannels d = (if connected d then Inr (youtube_channels d) else Inl DatabaseError)"

definition addYoutubeChannel :: "string \<Rightarrow> database \<Rightarrow> error + database" where
  "addYoutubeChannel channelId d =
     (if connected d
      then Inr (if channelId \<in> set (map channel_id (youtube_channels d)) then d
                else d\<lparr>youtube_channels :=
                         youtube_channels d @ [\<lparr>channel_id = channelId, last_video_id = None\<rparr>]\<rparr>)
      else Inl DatabaseError)"

definition updateLastVideoId :: "string \<Rightarrow> string \<Rightarrow> database \<Rightarrow> error + database" where
  "updateLastVideoId channelId videoId d =
     (if connected d
      then Inr (d\<lparr>youtube_channels :=
                  map (\<lambda>r. if channel_id r = channelId then r\<lparr>last_video_id := Some videoId\<rparr> else r)
                    (youtube_channels d)\<rparr>)
      else Inl DatabaseError)"

text \<open>
  The filter of \<^verbatim>\<open>checkNewUploads\<close>. A \<^verbatim>\<open>publishedAt\<close> that does not parse is an
  invalid date, which compares false.
\<close>

definition isNewVideo :: "date \<Rightarrow> video \<Rightarrow> bool" where
  "isNewVideo now v =
     (case publishedAt v of
        None \<Rightarrow> False
      | Some videoDate \<Rightarrow> now - 15 * 60 * 1000 < videoDate)"

text \<open>
  \<^verbatim>\<open>checkNewUploads\<close>: the loop over the channels, which skips a channel on a failed
  lookup, on no new video and on a failed cursor update, and the function itself,
  which throws when the channels cannot be read.
\<close>

record upload_data =
  up_channel :: yt_channel
  up_videos :: "video list"

fun checkUploads :: "youtube_api \<Rightarrow> youtube_channel list \<Rightarrow> process \<Rightarrow> upload_data list \<times> process" where
  "checkUploads api [] p = ([], p)"
| "checkUploads api (channel # rest) p =
     (case fetchLatestVideos api (channel_id channel) of
        None \<Rightarrow> checkUploads api rest p
      | Some (channelInfo, videos) \<Rightarrow>
          (let newVideos = filter (isNewVideo (clock p)) videos
           in case newVideos of
                [] \<Rightarrow> checkUploads api rest p
              | first # others \<Rightarrow>
                  (case updateLastVideoId (channel_id channel) (video_id first) (db p) of
                     Inl e \<Rightarrow> checkUploads api rest p
                   | Inr d \<Rightarrow>
                       (case checkUploads api rest (p\<lparr>db := d\<rparr>) of
                          (later, p1) \<Rightarrow>
                            (\<lparr>up_channel = channelInfo, up_videos = newVideos\<rparr> # later, p1)))))"

definition checkNewUploads :: "youtube_api \<Rightarrow> process \<Rightarrow> error + upload_data list \<times> process" where
  "checkNewUploads api p =
     (case getAllYoutubeChannels (db p) of
        Inl e \<Rightarrow> Inl e
      | Inr channels \<Rightarrow> Inr (checkUploads api channels p))"

text \<open>
  The \<^verbatim>\<open>add\<close> subcommand of the YouTube command: the reply sent to the requester, or
  the error thrown to the event handler, and the database afterwards.
\<close>

definition execute_add :: "youtube_api \<Rightarrow> string \<Rightarrow> database \<Rightarrow> (error + string) \<times> database" where
  "execute_add api channelId d =
     (case fetchLatestVideos api channelId of
        None \<Rightarrow> (Inr ''Could not find the YouTube channel. Please verify the Channel ID.'', d)
      | Some (channel, videos) \<Rightarrow>
          (case addYoutubeChannel channelId d of
             Inl e \<Rightarrow> (Inl e, d)
           | Inr d1 \<Rightarrow>
               (Inr (''Now monitoring YouTube channel: '' @ yt_title channel @ [CHR 0x0A]
                     @ ''Channel ID: '' @ channelId), d1)))"

section \<open>Destination configuration\<close>

text \<open>
  The statement of \<^verbatim>\<open>setGuildChannels\<close> on the table with its unique index on
  \<^verbatim>\<open>guild_id\<close>: the row in conflict is updated, otherwise a row is inserted.
\<close>

fun upsert :: "string \<Rightarrow> string option \<Rightarrow> string option \<Rightarrow> guild_channels list \<Rightarrow> guild_channels list" where
  "upsert g t y [] = [\<lparr>guild_id = g, twitter_channel_id = t, youtube_channel_id = y\<rparr>]"
| "upsert g t y (r # rs) =
     (if guild_id r = g then r\<lparr>twitter_channel_id := t, youtube_channel_id := y\<rparr> # rs
      else r # upsert g t y rs)"

datatype operation = Update | Insert

definition setGuildChannels ::
  "string \<Rightarrow> string option \<Rightarrow> string option \<Rightarrow> database \<Rightarrow> error + operation \<times> database" where
  "setGuildChannels guildId twitterChannelId youtubeChannelId d =
     (if \<not> connected d then Inl DatabaseError
      else (let row = find (\<lambda>r. guild_id r = guildId) (discord_channels d);
                operation = (if row \<noteq> None then Update else Insert)
            in Inr (operation,
                    d\<lparr>discord_channels :=
                        upsert guildId twitterChannelId youtubeChannelId (discord_channels d)\<rparr>)))"

definition getGuildChannels :: "string \<Rightarrow> database \<Rightarrow> error + guild_channels option" where
  "getGuildChannels guildId d =
     (if guildId = [] then Inl GuildIdRequired
      else if \<not> connected d then Inl DatabaseError
      else Inr (find (\<lambda>r. guild_id r = guildId) (discord_channels d)))"

section \<open>Fixtures\<close>

text \<open>The values a backoff can take: 0, or 10 seconds doubled some times and capped at 300.\<close>

definition backoff_value :: "int \<Rightarrow> bool" where
  "backoff_value b = (b = 0 \<or> (\<exists>k. b = min (10000 * 2 ^ k) 300000))"

text \<open>Concrete databases, upstream answers and process states for the examples below.\<close>

definition empty_database :: database where
  "empty_database = \<lparr>connected = True, twitter_accounts = [], youtube_channels = [], discord_channels = []\<rparr>"

definition alice :: twitter_account where
  "alice = \<lparr>account_handle = ''alice'', last_tweet_id = Some ''2''\<rparr>"

definition example_guild :: guild_channels where
  "example_guild = \<lparr>guild_id = ''g1'', twitter_channel_id = Some ''c1'', youtube_channel_id = Some ''c2''\<rparr>"

definition example_database :: "twitter_account list \<Rightarrow> database" where
  "example_database accounts =
     \<lparr>connected = True, twitter_accounts = accounts, youtube_channels = [],
      discord_channels = [example_guild]\<rparr>"

definition example_tweet :: "string \<Rightarrow> tweet" where
  "example_tweet i = \<lparr>tweet_id = i, tweet_text = ''hello'', author_id = ''u1'', media_keys = None\<rparr>"

definition example_included :: included_objects where
  "example_included = \<lparr>inc_media = None, inc_users = Some [\<lparr>user_id = ''u1'', username = ''alice''\<rparr>]\<rparr>"

definition example_response :: search_response where
  "example_response =
     \<lparr>rate_limit_remaining = Some 179, rate_limit_reset = Some 900,
      data = Some [example_tweet ''5'', example_tweet ''4'', example_tweet ''3''],
      included = Some example_included\<rparr>"

definition example_api :: upstream where
  "example_api handle since = Http200 example_response"

definition example_youtube_api :: "date \<Rightarrow> youtube_api" where
  "example_youtube_api now =
     \<lparr>get_channels = (\<lambda>channelId. Responded (Some [\<lparr>yt_id = channelId, yt_title = ''Channel'', uploads = ''UU1''\<rparr>])),
      get_playlistItems = (\<lambda>playlistId. Responded (Some [''a'', ''b''])),
      get_videos = (\<lambda>videoIds. Responded (Some
        [\<lparr>video_id = ''a'', video_title = ''fresh'', publishedAt = Some (now - (14 * 60 + 59) * 1000)\<rparr>,
         \<lparr>video_id = ''b'', video_title = ''stale'', publishedAt = Some (now - (15 * 60 + 1) * 1000)\<rparr>]))\<rparr>"

definition unreachable_youtube_api :: youtube_api where
  "unreachable_youtube_api =
     \<lparr>get_channels = (\<lambda>channelId. Rejected),
      get_playlistItems = (\<lambda>playlistId. Rejected),
      get_videos = (\<lambda>videoIds. Rejected)\<rparr>"

text \<open>
  States of the process reached by runs of tracker operations from a start at 10:00:
  a 429 with a retry hint of 20 minutes at 10:07 and at 10:14, and a pass of five
  requests at 10:00, answered with a reset time of 10:10, seen again at 10:16.
\<close>

definition denied_process :: process where
  "denied_process =
     run_ops [Elapse (7 * 60 * 1000), Throttled (Some (20 * 60))]
       (constructor (at_time 20000 10 0 0 0) empty_database)"

definition late_minute_process :: process where
  "late_minute_process =
     run_ops [Elapse (14 * 60 * 1000), Throttled (Some (20 * 60))]
       (constructor (at_time 20000 10 0 0 0) empty_database)"

definition five_accounts :: "twitter_account list" where
  "five_accounts =
     map (\<lambda>h. \<lparr>account_handle = h, last_tweet_id = None\<rparr>) [''a1'', ''a2'', ''a3'', ''a4'', ''a5'']"

definition quiet_response :: search_response where
  "quiet_response =
     \<lparr>rate_limit_remaining = Some 175,
      rate_limit_reset = Some (nat (at_time 20000 10 10 0 0 div 1000)),
      data = None, included = None\<rparr>"

definition one_request :: "tracker_op list" where
  "one_request = [Gate, StampRequest, Response quiet_response, Elapse 10000]"

definition stale_reset_process :: process where
  "stale_reset_process =
     run_ops (one_request @ one_request @ one_request @ one_request @ one_request @ [Elapse 910000])
       (constructor (at_time 20000 10 0 0 0) (example_database five_accounts))"

section \<open>The rate-limit gate\<close>

text \<open>
  The gate without its recursion: the backoff branch is reached only with
  \<open>remaining > 100\<close> and \<open>remaining \<le> 0\<close> at once.
\<close>

lemma handleRateLimit_unfold:
  "handleRateLimit p =
     (let now = clock p;
          p1 = (if now - lastRequestTime p < 10000 then sleep (10000 - (now - lastRequestTime p)) p else p)
      in if 5 \<le> requestCount p then
           (True, (sleep 60000 p1)\<lparr>requestCount := 0, lastRequestTime := clock (sleep 60000 p1)\<rparr>)
         else if resetAt p \<le> now then
           (True, p1\<lparr>remaining := 180, resetAt := now + 900000, lastReset := now,
                      backoffTime := 0, requestCount := 0\<rparr>)
         else if remaining p \<le> 100 then
           (True, (sleep (resetAt p - now + 5000) p1)\<lparr>requestCount := 0, backoffTime := 0, remaining := 180,
                         resetAt := clock (sleep (resetAt p - now + 5000) p1) + 900000\<rparr>)
         else (True, p1\<lparr>requestCount := requestCount p1 + 1\<rparr>))"
  by (subst handleRateLimit.simps)
     (simp add: Let_def bufferThreshold_def maxRequestsPerBatch_def minRequestInterval_def batchInterval_def)

lemma handleRateLimit_fst: "fst (handleRateLimit p)"
  by (simp add: handleRateLimit_unfold Let_def)

lemma handleRateLimit_requests: "requests (snd (handleRateLimit p)) = requests p"
  by (simp add: handleRateLimit_unfold Let_def sleep_def)

lemma handleRateLimit_db: "db (snd (handleRateLimit p)) = db p"
  by (simp add: handleRateLimit_unfold Let_def sleep_def)

lemma handleRateLimit_remaining:
  "0 \<le> remaining p \<Longrightarrow> 0 \<le> remaining (snd (handleRateLimit p))"
  by (simp add: handleRateLimit_unfold Let_def sleep_def)

lemma handleRateLimit_backoff:
  "backoffTime (snd (handleRateLimit p)) = 0 \<or> backoffTime (snd (handleRateLimit p)) = backoffTime p"
  by (simp add: handleRateLimit_unfold Let_def sleep_def)

lemma handleRateLimit_reset_backoff:
  "requestCount p < maxRequestsPerBatch \<Longrightarrow> resetAt p \<le> clock p \<Longrightarrow>
   backoffTime (snd (handleRateLimit p)) = 0"
  by (simp add: handleRateLimit_unfold Let_def sleep_def maxRequestsPerBatch_def)

lemma fetchTweets_requests:
  "requests (snd (fetchTweets api acct p)) = requests p @ [(account_handle acct, last_tweet_id acct)]"
proof -
  obtain p1 where g: "handleRateLimit p = (True, p1)"
    using handleRateLimit_fst [of p] by (cases "handleRateLimit p") auto
  then have r: "requests p1 = requests p"
    using handleRateLimit_requests [of p] by simp
  show ?thesis
    unfolding fetchTweets_def
    by (simp add: g r Let_def recordResponse_def recordThrottled_def updateLastTweetId_def
          split: http_result.split option.split list.split sum.split)
qed

text \<open>
  C10. The gate of the poller returns for every state of the process, and what it
  returns is \<open>true\<close>; so \<^verbatim>\<open>fetchTweets\<close> never takes the branch that returns
  \<open>null\<close> on a denial: every call sends its request upstream.
\<close>

theorem gate_always_grants:
  "(\<exists>p1. handleRateLimit p = (True, p1))
   \<and> requests (snd (fetchTweets api acct p)) = requests p @ [(account_handle acct, last_tweet_id acct)]"
proof -
  have "\<exists>p1. handleRateLimit p = (True, p1)"
    using handleRateLimit_fst [of p] by (cases "handleRateLimit p") auto
  then show ?thesis
    using fetchTweets_requests by blast
qed

section \<open>Invariants of the rate-limit tracker\<close>

lemma backoff_value_next: "backoff_value b \<Longrightarrow> backoff_value (nextBackoff b)"
proof (cases "b = 0")
  case True
  have "(10000::int) = min (10000 * 2 ^ 0) 300000" by simp
  then have "\<exists>k. (10000::int) = min (10000 * 2 ^ k) 300000" by blast
  then show ?thesis using True by (simp add: backoff_value_def nextBackoff_def)
next
  case False
  assume "backoff_value b"
  with False obtain k where k: "b = min (10000 * 2 ^ k) 300000"
    by (auto simp: backoff_value_def)
  have "min (b * 2) 300000 = min (10000 * 2 ^ Suc k) 300000"
    by (simp add: k min_def)
  then have "\<exists>j. nextBackoff b = min (10000 * 2 ^ j) 300000"
    using False unfolding nextBackoff_def by (metis (full_types))
  then show ?thesis by (simp add: backoff_value_def)
qed

lemma backoff_value_range:
  "backoff_value b \<Longrightarrow> b = 0 \<or> (10000 \<le> b \<and> b \<le> 300000)"
proof -
  assume "backoff_value b"
  then consider "b = 0" | k where "b = min (10000 * 2 ^ k) 300000"
    by (auto simp: backoff_value_def)
  then show ?thesis
  proof cases
    case 1
    then show ?thesis by simp
  next
    case 2
    have "(1::int) \<le> 2 ^ k" by simp
    then have "(10000::int) \<le> 10000 * 2 ^ k" by simp
    then show ?thesis using 2 by simp
  qed
qed

lemma tracker_step_inv:
  "0 \<le> remaining p \<and> backoff_value (backoffTime p) \<Longrightarrow>
   0 \<le> remaining (tracker_step x p) \<and> backoff_value (backoffTime (tracker_step x p))"
proof (cases x)
  case Gate
  assume inv: "0 \<le> remaining p \<and> backoff_value (backoffTime p)"
  have "backoff_value 0" by (simp add: backoff_value_def)
  with inv handleRateLimit_backoff [of p] have "backoff_value (backoffTime (snd (handleRateLimit p)))"
    by auto
  with inv Gate show ?thesis by (simp add: handleRateLimit_remaining)
next
  case Backoff
  assume "0 \<le> remaining p \<and> backoff_value (backoffTime p)"
  with Backoff show ?thesis by (simp add: backoff_value_next)
qed (simp_all add: recordResponse_def recordThrottled_def split: option.split)

lemma run_ops_inv:
  "0 \<le> remaining p \<and> backoff_value (backoffTime p) \<Longrightarrow>
   0 \<le> remaining (run_ops xs p) \<and> backoff_value (backoffTime (run_ops xs p))"
proof (induction xs arbitrary: p)
  case Nil
  then show ?case by simp
next
  case (Cons x xs)
  have "0 \<le> remaining (tracker_step x p) \<and> backoff_value (backoffTime (tracker_step x p))"
    using Cons.prems by (rule tracker_step_inv)
  then show ?case
    using Cons.IH by simp
qed

lemma run_ops_no_backoff:
  "Backoff \<notin> set xs \<Longrightarrow> backoffTime p = 0 \<Longrightarrow> backoffTime (run_ops xs p) = 0"
proof (induction xs arbitrary: p)
  case Nil
  then show ?case by simp
next
  case (Cons x xs)
  have "backoffTime (tracker_step x p) = 0"
  proof (cases x)
    case Gate
    then show ?thesis using handleRateLimit_backoff [of p] Cons.prems by auto
  next
    case Backoff
    then show ?thesis using Cons.prems by simp
  qed (simp_all add: Cons.prems recordResponse_def recordThrottled_def)
  then show ?case using Cons by simp
qed

text \<open>
  C5. Along every run of tracker operations from the constructor, the remaining count
  is not negative and the backoff is 0 or lies between 10000 and 300000 as 10000
  doubled some times and capped at 300000. When the reset time is reached, the gate
  leaves the backoff at 0: from any state whose batch counter is below the batch
  limit (the batch wait comes first in the gate), and from every state of a run in
  which the backoff step is taken inside the gate only, as the source does.
\<close>

theorem tracker_invariants:
  "(let p = run_ops xs (constructor t0 d)
    in 0 \<le> remaining p
       \<and> (backoffTime p = 0
            \<or> (10000 \<le> backoffTime p \<and> backoffTime p \<le> 300000
               \<and> (\<exists>k. backoffTime p = min (10000 * 2 ^ k) 300000)))
       \<and> (resetAt p \<le> clock p \<and> (requestCount p < maxRequestsPerBatch \<or> Backoff \<notin> set xs)
            \<longrightarrow> backoffTime (snd (handleRateLimit p)) = 0))"
proof -
  define p where "p = run_ops xs (constructor t0 d)"
  have init: "0 \<le> remaining (constructor t0 d) \<and> backoff_value (backoffTime (constructor t0 d))"
    by (simp add: constructor_def backoff_value_def)
  have inv: "0 \<le> remaining p \<and> backoff_value (backoffTime p)"
    unfolding p_def using init by (rule run_ops_inv)
  have range: "backoffTime p = 0
       \<or> (10000 \<le> backoffTime p \<and> backoffTime p \<le> 300000
          \<and> (\<exists>k. backoffTime p = min (10000 * 2 ^ k) 300000))"
    using inv backoff_value_range [of "backoffTime p"] by (auto simp: backoff_value_def)
  have reset: "backoffTime (snd (handleRateLimit p)) = 0"
    if "resetAt p \<le> clock p" and "requestCount p < maxRequestsPerBatch \<or> Backoff \<notin> set xs"
  proof -
    from that(2) show ?thesis
    proof
      assume "requestCount p < maxRequestsPerBatch"
      then show ?thesis using that(1) by (rule handleRateLimit_reset_backoff)
    next
      assume "Backoff \<notin> set xs"
      then have "backoffTime p = 0"
        unfolding p_def by (rule run_ops_no_backoff) (simp add: constructor_def)
      then show ?thesis using handleRateLimit_backoff [of p] by auto
    qed
  qed
  show ?thesis
    unfolding Let_def p_def [symmetric] using inv range reset by blast
qed

theorem tracker_invariants_witness:
  "(let p = run_ops [Backoff, Elapse 1000000] (constructor 0 empty_database)
    in backoffTime p = 10000 \<and> resetAt p \<le> clock p \<and> requestCount p < maxRequestsPerBatch
       \<and> 0 \<le> remaining p \<and> backoffTime (snd (handleRateLimit p)) = 0)"
  using tracker_invariants [of "[Backoff, Elapse 1000000]" 0 empty_database]
  by (simp add: Let_def constructor_def nextBackoff_def maxRequestsPerBatch_def)

section \<open>Throttled answers\<close>

text \<open>
  C6. When the upstream answers 429, \<^verbatim>\<open>fetchTweets\<close> returns \<open>null\<close>, the remaining
  count is 0 and the reset time is the current time plus the retry-after hint in
  seconds, 900 seconds when the hint is absent.
\<close>

theorem throttled_sets_reset:
  "api (account_handle acct) (last_tweet_id acct) = Http429 retryAfter \<Longrightarrow>
   fst (fetchTweets api acct p) = None
   \<and> remaining (snd (fetchTweets api acct p)) = 0
   \<and> resetAt (snd (fetchTweets api acct p))
       = clock (snd (fetchTweets api acct p))
         + (case retryAfter of None \<Rightarrow> 900 | Some seconds \<Rightarrow> int seconds) * 1000"
proof -
  assume a: "api (account_handle acct) (last_tweet_id acct) = Http429 retryAfter"
  obtain p1 where g: "handleRateLimit p = (True, p1)"
    using handleRateLimit_fst [of p] by (cases "handleRateLimit p") auto
  show ?thesis
    unfolding fetchTweets_def
    by (simp add: g a Let_def recordThrottled_def)
qed

theorem throttled_sets_reset_witness:
  "(let r = fetchTweets (\<lambda>handle since. Http429 None)
              \<lparr>account_handle = ''alice'', last_tweet_id = None\<rparr> (constructor 0 empty_database)
    in fst r = None \<and> remaining (snd r) = 0 \<and> resetAt (snd r) = clock (snd r) + 900000)"
  using throttled_sets_reset [of "\<lambda>handle since. Http429 None"
          "\<lparr>account_handle = ''alice'', last_tweet_id = None\<rparr>" None "constructor 0 empty_database"]
  by (simp add: Let_def)

section \<open>The grid\<close>

text \<open>
  C2. What \<^verbatim>\<open>getNextCheckTime(0)\<close> computes on the grid: at an instant that is a grid
  line it returns that same instant, at 10:15:00.000 it returns 10:15:00.000 and not
  10:30, and at 10:15:30 it returns 10:15:00, which has passed. At 10:07 it returns
  10:15.
\<close>

theorem getNextCheckTime_on_grid_line:
  "getNextCheckTime 0 (g * 900000) = g * 900000
   \<and> getNextCheckTime 0 (at_time 20000 10 15 0 0) = at_time 20000 10 15 0 0
   \<and> getNextCheckTime 0 (at_time 20000 10 15 30 0) = at_time 20000 10 15 0 0
   \<and> getNextCheckTime 0 (at_time 20000 10 7 0 0) = at_time 20000 10 15 0 0"
proof -
  have "(g * 900000) div 60000 = g * 15" by simp
  then have "getNextCheckTime 0 (g * 900000) = g * 900000"
    by (simp add: getNextCheckTime_grid math_ceil_div_def)
  then show ?thesis
    by (simp add: getNextCheckTime_grid at_time_def math_ceil_div_def)
qed

section \<open>Skip-ahead\<close>

lemma skipAhead_spec:
  "nextCheck = getNextCheckTime k now \<Longrightarrow> skipAhead now r (k, nextCheck) = (j, t) \<Longrightarrow>
   t = getNextCheckTime j now \<and> k \<le> j \<and> r + 60000 \<le> t
   \<and> (\<forall>i. k \<le> i \<and> i < j \<longrightarrow> getNextCheckTime i now < r + 60000)"
proof (induction now r "(k, nextCheck)" arbitrary: k nextCheck rule: skipAhead.induct)
  case (1 now r k nextCheck)
  show ?case
  proof (cases "nextCheck < r + 60000")
    case True
    with "1.prems"(2) have rec: "skipAhead now r (Suc k, getNextCheckTime (Suc k) now) = (j, t)"
      by (simp add: skipAhead.simps)
    from "1.hyps" [OF True refl rec]
    have ih: "t = getNextCheckTime j now \<and> Suc k \<le> j \<and> r + 60000 \<le> t
              \<and> (\<forall>i. Suc k \<le> i \<and> i < j \<longrightarrow> getNextCheckTime i now < r + 60000)"
      .
    have "getNextCheckTime i now < r + 60000" if "k \<le> i" and "i < j" for i
    proof (cases "i = k")
      case True
      then show ?thesis using \<open>nextCheck < r + 60000\<close> "1.prems"(1) by simp
    next
      case False
      with that have "Suc k \<le> i" by simp
      with ih that show ?thesis by blast
    qed
    with ih show ?thesis by auto
  next
    case False
    with "1.prems"(2) have "j = k" "t = nextCheck" by (simp_all add: skipAhead.simps)
    with False "1.prems"(1) show ?thesis by auto
  qed
qed

lemma grid_line_getNextCheckTime: "grid_line (getNextCheckTime k now)"
  by (simp add: grid_line_def getNextCheckTime_grid)

lemma grid_line_after_next:
  "grid_line g \<Longrightarrow> getNextCheckTime 0 now \<le> g \<Longrightarrow> \<exists>i. g = getNextCheckTime i now"
proof -
  assume g: "grid_line g" and le: "getNextCheckTime 0 now \<le> g"
  define c where "c = math_ceil_div (now div 60000) 15"
  from g have "g mod 900000 = 0"
    by (simp add: grid_line_def)
  then have gm: "g = (g div 900000) * 900000"
    using div_mult_mod_eq [of g 900000] by simp
  have "c * 900000 \<le> (g div 900000) * 900000"
    using le gm by (simp add: getNextCheckTime_grid c_def)
  then have "c \<le> g div 900000" by simp
  then have "g div 900000 = c + int (nat (g div 900000 - c))" by simp
  then have "g = getNextCheckTime (nat (g div 900000 - c)) now"
    using gm by (simp add: getNextCheckTime_grid c_def)
  then show ?thesis by blast
qed

lemma getNextCheckTime_mono: "i \<le> j \<Longrightarrow> getNextCheckTime i now \<le> getNextCheckTime j now"
  by (simp add: getNextCheckTime_grid)

text \<open>
  C3, as the code has it. When the pre-check denies, the time computed is a grid line
  \<^verbatim>\<open>getNextCheckTime(n)\<close> for the number \<open>n\<close> of skipped intervals; it is not before the
  tick \<^verbatim>\<open>getNextCheckTime(0)\<close> and not before the reset time plus 60 seconds; it is the
  first grid line with these two properties; and every tick before it was skipped
  because it lies before the reset time plus 60 seconds.
\<close>

theorem skip_ahead_first_viable:
  "\<not> canProcessAccounts p \<Longrightarrow>
   findNextViableCheckTime p = getNextCheckTime (skippedIntervals p) (clock p)
   \<and> grid_line (findNextViableCheckTime p)
   \<and> getNextCheckTime 0 (clock p) \<le> findNextViableCheckTime p
   \<and> resetAt p + 60000 \<le> findNextViableCheckTime p
   \<and> (\<forall>g. grid_line g \<and> getNextCheckTime 0 (clock p) \<le> g \<and> resetAt p + 60000 \<le> g
          \<longrightarrow> findNextViableCheckTime p \<le> g)
   \<and> (\<forall>i < skippedIntervals p. getNextCheckTime i (clock p) < resetAt p + 60000)"
proof -
  assume denied: "\<not> canProcessAccounts p"
  define j where "j = skippedIntervals p"
  define t where "t = findNextViableCheckTime p"
  have run: "skipAhead (clock p) (resetAt p) (0, getNextCheckTime 0 (clock p)) = (j, t)"
    using denied by (simp add: j_def t_def skippedIntervals_def findNextViableCheckTime_def
        findNextViable_def Let_def)
  from skipAhead_spec [OF refl run]
  have spec: "t = getNextCheckTime j (clock p)" "resetAt p + 60000 \<le> t"
    "\<forall>i. i < j \<longrightarrow> getNextCheckTime i (clock p) < resetAt p + 60000"
    by simp_all
  have next_le: "getNextCheckTime 0 (clock p) \<le> t"
    unfolding spec(1) by (rule getNextCheckTime_mono) simp
  have least: "t \<le> g" if "grid_line g" "getNextCheckTime 0 (clock p) \<le> g" "resetAt p + 60000 \<le> g" for g
  proof -
    from grid_line_after_next [OF that(1) that(2)]
    obtain i where i: "g = getNextCheckTime i (clock p)" by blast
    have "\<not> i < j"
    proof
      assume "i < j"
      with spec(3) have "getNextCheckTime i (clock p) < resetAt p + 60000" by blast
      with that(3) i show False by simp
    qed
    then have "j \<le> i" by simp
    then show ?thesis unfolding spec(1) i by (rule getNextCheckTime_mono)
  qed
  have "grid_line t" unfolding spec(1) by (rule grid_line_getNextCheckTime)
  with spec next_le least show ?thesis
    unfolding j_def [symmetric] t_def [symmetric] by blast
qed

text \<open>The three example states, field by field.\<close>

lemma denied_process_state:
  "clock denied_process = at_time 20000 10 7 0 0 \<and> requestCount denied_process = 0
   \<and> remaining denied_process = 0 \<and> resetAt denied_process = at_time 20000 10 27 0 0
   \<and> backoffTime denied_process = 0 \<and> db denied_process = empty_database"
  by (simp add: denied_process_def constructor_def recordThrottled_def at_time_def)

lemma late_minute_process_state:
  "clock late_minute_process = at_time 20000 10 14 0 0 \<and> requestCount late_minute_process = 0
   \<and> remaining late_minute_process = 0 \<and> resetAt late_minute_process = at_time 20000 10 34 0 0
   \<and> backoffTime late_minute_process = 0 \<and> db late_minute_process = empty_database"
  by (simp add: late_minute_process_def constructor_def recordThrottled_def at_time_def)

lemma stale_reset_process_state:
  "clock stale_reset_process = at_time 20000 10 16 0 0 \<and> requestCount stale_reset_process = 5
   \<and> remaining stale_reset_process = 175 \<and> resetAt stale_reset_process = at_time 20000 10 10 0 0
   \<and> backoffTime stale_reset_process = 0
   \<and> db stale_reset_process = example_database five_accounts"
  by (simp add: stale_reset_process_def one_request_def quiet_response_def constructor_def
        handleRateLimit_unfold Let_def sleep_def recordResponse_def at_time_def)

text \<open>
  At 10:07, after a 429 with a retry hint of 20 minutes, the pre-check denies, one
  tick (10:15) is skipped and 10:30 is computed.
\<close>

theorem skip_ahead_first_viable_witness:
  "\<not> canProcessAccounts denied_process
   \<and> clock denied_process = at_time 20000 10 7 0 0
   \<and> resetAt denied_process = clock denied_process + 20 * 60 * 1000
   \<and> findNextViableCheckTime denied_process = at_time 20000 10 30 0 0
   \<and> skippedIntervals denied_process = 1"
proof -
  note st = denied_process_state
  have denied: "\<not> canProcessAccounts denied_process"
    by (simp add: canProcessAccounts_def st empty_database_def getAllTwitterAccounts_def
          maxRequestsPerBatch_def at_time_def)
  have run: "findNextViable denied_process = (1, at_time 20000 10 30 0 0)"
    using denied
    by (simp add: findNextViable_def st skipAhead.simps getNextCheckTime_grid math_ceil_div_def
          at_time_def)
  show ?thesis
    using skip_ahead_first_viable [OF denied] run denied
    by (simp add: findNextViableCheckTime_def skippedIntervals_def st at_time_def)
qed

text \<open>
  C3 as stated fails twice. After a pass of five requests the pre-check denies for the
  batch limit, whatever the reset time: at 10:16, with the reset time 10:10 that the
  upstream gave, the time computed is 10:30, while the first grid line at or after
  the reset time plus 60 seconds is 10:15. And at 10:14 with the reset 20 minutes
  ahead two ticks are skipped, not one.
\<close>

theorem skip_ahead_counterexample:
  "\<not> canProcessAccounts stale_reset_process
   \<and> clock stale_reset_process = at_time 20000 10 16 0 0
   \<and> resetAt stale_reset_process = at_time 20000 10 10 0 0
   \<and> findNextViableCheckTime stale_reset_process = at_time 20000 10 30 0 0
   \<and> grid_line (at_time 20000 10 15 0 0)
   \<and> resetAt stale_reset_process + 60000 \<le> at_time 20000 10 15 0 0
   \<and> at_time 20000 10 15 0 0 < findNextViableCheckTime stale_reset_process
   \<and> \<not> canProcessAccounts late_minute_process
   \<and> clock late_minute_process = at_time 20000 10 14 0 0
   \<and> resetAt late_minute_process = clock late_minute_process + 20 * 60 * 1000
   \<and> findNextViableCheckTime late_minute_process = at_time 20000 10 45 0 0
   \<and> skippedIntervals late_minute_process = 2"
proof -
  note sa = stale_reset_process_state
  note sb = late_minute_process_state
  have a: "\<not> canProcessAccounts stale_reset_process"
    by (simp add: canProcessAccounts_def sa example_database_def getAllTwitterAccounts_def
          maxRequestsPerBatch_def)
  have b: "\<not> canProcessAccounts late_minute_process"
    by (simp add: canProcessAccounts_def sb empty_database_def getAllTwitterAccounts_def
          maxRequestsPerBatch_def at_time_def)
  have ra: "findNextViable stale_reset_process = (0, at_time 20000 10 30 0 0)"
    using a
    by (simp add: findNextViable_def sa skipAhead.simps getNextCheckTime_grid math_ceil_div_def
          at_time_def)
  have rb: "findNextViable late_minute_process = (2, at_time 20000 10 45 0 0)"
    using b
    by (simp add: findNextViable_def sb skipAhead.simps getNextCheckTime_grid math_ceil_div_def
          at_time_def)
  show ?thesis
    using a b ra rb
    by (simp add: findNextViableCheckTime_def skippedIntervals_def grid_line_def sa sb at_time_def)
qed

section \<open>Source A: cursor and dispatch\<close>

lemma author_with_account [simp]: "author (with_account acct f) = author f"
  by (simp add: with_account_def fetched.defs)

lemma tweet_with_account [simp]: "tweet (with_account acct f) = tweet f"
  by (simp add: with_account_def fetched.defs)

lemma account_with_account [simp]: "account (with_account acct f) = account_handle acct"
  by (simp add: with_account_def fetched.defs)

lemma dispatchTweets_all:
  "\<forall>td \<in> set tds. author td \<noteq> None \<Longrightarrow> dispatchTweets deliver tds = (tds, True)"
  by (induction tds) (auto simp: sendTwitterUpdate_def split: option.splits)

lemma author_attach:
  "author_id t \<in> set (map user_id users) \<Longrightarrow> author (attach inc users t) \<noteq> None"
  by (auto simp: attach_def Let_def find_None_iff)

lemma tweet_attach [simp]: "tweet (attach inc users t) = t"
  by (simp add: attach_def Let_def)

lemma updateLastTweetId_rows:
  assumes "updateLastTweetId h i d = Inr d1"
  shows "map account_handle (twitter_accounts d1) = map account_handle (twitter_accounts d)
   \<and> (\<forall>r \<in> set (twitter_accounts d1). account_handle r = h \<longrightarrow> last_tweet_id r = Some i)"
proof -
  define f where "f = (\<lambda>r::twitter_account. if account_handle r = h then r\<lparr>last_tweet_id := Some i\<rparr> else r)"
  have d1: "twitter_accounts d1 = map f (twitter_accounts d)"
    using assms by (cases "connected d") (auto simp: updateLastTweetId_def f_def)
  have h: "account_handle (f r) = account_handle r" for r
    by (simp add: f_def)
  have c: "account_handle (f r) = h \<Longrightarrow> last_tweet_id (f r) = Some i" for r
    by (simp add: f_def split: if_splits)
  have "map account_handle (map f rows) = map account_handle rows" for rows
    by (induction rows) (simp_all add: h)
  moreover have "\<forall>r \<in> set (map f rows). account_handle r = h \<longrightarrow> last_tweet_id r = Some i" for rows
    by (induction rows) (simp_all add: c)
  ultimately show ?thesis
    unfolding d1 by blast
qed

lemma fetchTweets_success:
  assumes "handleRateLimit p = (True, g)"
    and "api (account_handle acct) (last_tweet_id acct) = Http200 response"
    and "data response = Some (newest # older)"
    and "included response = Some inc"
    and "inc_users inc = Some users"
    and "updateLastTweetId (account_handle acct) (tweet_id newest) (db g) = Inr d"
  shows "fetchTweets api acct p
         = (Some (map (attach inc users) (newest # older)),
            (recordResponse response
               (g\<lparr>lastRequestTime := clock g,
                  requests := requests g @ [(account_handle acct, last_tweet_id acct)]\<rparr>))\<lparr>db := d\<rparr>)"
proof -
  have "db (recordResponse response
               (g\<lparr>lastRequestTime := clock g,
                  requests := requests g @ [(account_handle acct, last_tweet_id acct)]\<rparr>)) = db g"
    by (simp add: recordResponse_def)
  then show ?thesis
    unfolding fetchTweets_def
    by (simp add: assms Let_def)
qed

text \<open>What the dispatch loop does when the author of an item is undefined.\<close>

lemma dispatchTweets_missing_author:
  "author td = None \<Longrightarrow> dispatchTweets deliver (td # rest) = ([td], False)"
  by (simp add: sendTwitterUpdate_def)

text \<open>
  What the poller and the dispatch loop do once they run. The upstream answers 200
  with the items \<open>newest # older\<close> and the author of each item among the included
  users; the database is connected, so the cursor update succeeds. Then
  \<^verbatim>\<open>fetchTweets\<close> returns one entry per item, in the order of the answer; the cursor
  of every row of that handle is the id of the newest item and no row is added or
  removed; the loop over this one account returns the entries; and the dispatch loop
  hands every one of them to \<^verbatim>\<open>sendTwitterUpdate\<close> and runs to its end, whatever the
  sends do.
\<close>

lemma fetchTweets_persists_newest:
  assumes "api (account_handle acct) (last_tweet_id acct) = Http200 response"
    and "data response = Some (newest # older)"
    and "included response = Some inc"
    and "inc_users inc = Some users"
    and "\<forall>t \<in> set (newest # older). author_id t \<in> set (map user_id users)"
    and "connected (db p)"
  shows "\<exists>items p1.
           fetchTweets api acct p = (Some items, p1)
           \<and> map tweet items = newest # older
           \<and> map account_handle (twitter_accounts (db p1)) = map account_handle (twitter_accounts (db p))
           \<and> (\<forall>r \<in> set (twitter_accounts (db p1)).
                 account_handle r = account_handle acct \<longrightarrow> last_tweet_id r = Some (tweet_id newest))
           \<and> pollAccounts api [acct] p = (map (with_account acct) items, p1)
           \<and> (\<forall>deliver. dispatchTweets deliver (map (with_account acct) items)
                            = (map (with_account acct) items, True))"
proof -
  obtain g where g: "handleRateLimit p = (True, g)"
    using handleRateLimit_fst [of p] by (cases "handleRateLimit p") auto
  then have gdb: "db g = db p"
    using handleRateLimit_db [of p] by simp
  obtain d where d: "updateLastTweetId (account_handle acct) (tweet_id newest) (db g) = Inr d"
    using assms(6) by (simp add: updateLastTweetId_def gdb)
  define items where "items = map (attach inc users) (newest # older)"
  define p1 where "p1 = (recordResponse response
               (g\<lparr>lastRequestTime := clock g,
                  requests := requests g @ [(account_handle acct, last_tweet_id acct)]\<rparr>))\<lparr>db := d\<rparr>"
  have fetch: "fetchTweets api acct p = (Some items, p1)"
    unfolding items_def p1_def using g assms(1-4) d by (rule fetchTweets_success)
  have dbp1: "db p1 = d"
    by (simp add: p1_def)
  have tweets: "map tweet items = newest # older"
    by (simp add: items_def comp_def)
  from updateLastTweetId_rows [OF d]
  have rows: "map account_handle (twitter_accounts (db p1)) = map account_handle (twitter_accounts (db p))"
    "\<forall>r \<in> set (twitter_accounts (db p1)). account_handle r = account_handle acct
        \<longrightarrow> last_tweet_id r = Some (tweet_id newest)"
    unfolding dbp1 gdb by simp_all
  have poll: "pollAccounts api [acct] p = (map (with_account acct) items, p1)"
    using fetch by simp
  have "author (attach inc users t) \<noteq> None" if "t \<in> set (newest # older)" for t
    using assms(5) that by (intro author_attach) blast
  then have "\<forall>td \<in> set (map (with_account acct) items). author td \<noteq> None"
    unfolding items_def by (simp del: not_None_eq)
  then have "dispatchTweets deliver (map (with_account acct) items)
               = (map (with_account acct) items, True)" for deliver
    by (rule dispatchTweets_all)
  then have dispatch: "\<forall>deliver. dispatchTweets deliver (map (with_account acct) items)
                            = (map (with_account acct) items, True)"
    by (rule allI)
  show ?thesis
    apply (rule exI [of _ items])
    apply (rule exI [of _ p1])
    apply (intro conjI)
         apply (rule fetch)
        apply (rule tweets)
       apply (rule rows(1))
      apply (rule rows(2))
     apply (rule poll)
    apply (rule dispatch)
    done
qed

text \<open>
  The loop over the one account \<open>alice\<close> at cursor 2, with an answer of the ids 5, 4,
  3: were it reached, the cursor would become 5 and three items would be returned.
\<close>

lemma pollAccounts_example:
  "(case pollAccounts example_api [alice] (constructor 0 (example_database [alice])) of
      (tweets, p1) \<Rightarrow>
        map (\<lambda>td. tweet_id (tweet td)) tweets = [''5'', ''4'', ''3'']
        \<and> twitter_accounts (db p1) = [\<lparr>account_handle = ''alice'', last_tweet_id = Some ''5''\<rparr>])"
  by (simp add: fetchTweets_def handleRateLimit_unfold Let_def sleep_def constructor_def
        example_database_def alice_def example_api_def example_response_def example_included_def
        example_tweet_def recordResponse_def updateLastTweetId_def attach_def)

section \<open>Source A: the pass\<close>

lemma handleRateLimit_integration_db:
  "integration_db (snd (handleRateLimit p)) = integration_db p"
  by (simp add: handleRateLimit_unfold Let_def sleep_def)

lemma run_ops_integration_db: "integration_db (run_ops xs p) = integration_db p"
proof (induction xs arbitrary: p)
  case Nil
  show ?case by simp
next
  case (Cons x xs)
  have "integration_db (tracker_step x p) = integration_db p"
    by (cases x) (simp_all add: handleRateLimit_integration_db recordResponse_def recordThrottled_def)
  with Cons.IH show ?case by simp
qed

lemma checkNewTweets_without_handle:
  "\<not> integration_db p \<Longrightarrow> checkNewTweets api p = ([], p)"
  by (simp add: checkNewTweets_def verifyChannelConfigurations_def split: sum.split)

text \<open>
  C1, on the code. \<^verbatim>\<open>checkNewTweets\<close> polls no entity: in every state that a run of
  tracker operations reaches from the constructor, and on every database, it returns
  the empty list and leaves the state as it is, because the guild check reads the
  undefined \<^verbatim>\<open>db\<close> of its module. With the entity \<open>alice\<close> at cursor 2, a guild
  configured and an upstream that would answer with the ids 5, 4, 3, the pass returns
  nothing, sends no request, leaves the cursor at 2 and hands nothing to dispatch.
\<close>

theorem checkNewTweets_polls_nothing:
  "checkNewTweets api ((run_ops xs (constructor t0 d))\<lparr>db := d1\<rparr>)
     = ([], (run_ops xs (constructor t0 d))\<lparr>db := d1\<rparr>)
   \<and> checkNewTweets example_api (constructor 0 (example_database [alice]))
       = ([], constructor 0 (example_database [alice]))
   \<and> twitter_accounts
         (db (snd (checkNewTweets example_api (constructor 0 (example_database [alice])))))
       = [\<lparr>account_handle = ''alice'', last_tweet_id = Some ''2''\<rparr>]
   \<and> requests (snd (checkNewTweets example_api (constructor 0 (example_database [alice])))) = []
   \<and> dispatchTweets deliver
         (fst (checkNewTweets example_api (constructor 0 (example_database [alice]))))
       = ([], True)"
proof -
  have "\<not> integration_db ((run_ops xs (constructor t0 d))\<lparr>db := d1\<rparr>)"
    by (simp add: run_ops_integration_db constructor_def)
  then have general: "checkNewTweets api ((run_ops xs (constructor t0 d))\<lparr>db := d1\<rparr>)
     = ([], (run_ops xs (constructor t0 d))\<lparr>db := d1\<rparr>)"
    by (rule checkNewTweets_without_handle)
  have "\<not> integration_db (constructor 0 (example_database [alice]))"
    by (simp add: constructor_def)
  then have example: "checkNewTweets example_api (constructor 0 (example_database [alice]))
       = ([], constructor 0 (example_database [alice]))"
    by (rule checkNewTweets_without_handle)
  show ?thesis
    unfolding example using general
    by (simp add: constructor_def example_database_def alice_def)
qed

section \<open>Source B: the time window\<close>

lemma isNewVideo_age:
  "isNewVideo now v = (\<exists>t. publishedAt v = Some t \<and> now - t < 15 * 60 * 1000)"
  by (cases "publishedAt v") (auto simp: isNewVideo_def)

lemma checkUploads_videos:
  "u \<in> set (fst (checkUploads api channels p)) \<Longrightarrow>
   \<exists>c \<in> set channels. \<exists>videos.
      fetchLatestVideos api (channel_id c) = Some (up_channel u, videos)
      \<and> up_videos u = filter (isNewVideo (clock p)) videos"
proof (induction channels arbitrary: p)
  case Nil
  then show ?case by simp
next
  case (Cons c rest)
  show ?case
  proof (cases "fetchLatestVideos api (channel_id c)")
    case None
    with Cons.prems have "u \<in> set (fst (checkUploads api rest p))" by simp
    from Cons.IH [OF this] show ?thesis by auto
  next
    case (Some cv)
    obtain channelInfo videos where cv: "cv = (channelInfo, videos)" by (cases cv)
    show ?thesis
    proof (cases "filter (isNewVideo (clock p)) videos")
      case Nil
      with Cons.prems Some cv have "u \<in> set (fst (checkUploads api rest p))" by simp
      from Cons.IH [OF this] show ?thesis by auto
    next
      case (Cons first others)
      note new = Cons
      show ?thesis
      proof (cases "updateLastVideoId (channel_id c) (video_id first) (db p)")
        case (Inl e)
        with Cons.prems Some cv new have "u \<in> set (fst (checkUploads api rest p))" by simp
        from Cons.IH [OF this] show ?thesis by auto
      next
        case (Inr d)
        with Cons.prems Some cv new
        have "u = \<lparr>up_channel = channelInfo, up_videos = filter (isNewVideo (clock p)) videos\<rparr>
              \<or> u \<in> set (fst (checkUploads api rest (p\<lparr>db := d\<rparr>)))"
          by (auto split: prod.splits)
        then show ?thesis
        proof
          assume "u = \<lparr>up_channel = channelInfo, up_videos = filter (isNewVideo (clock p)) videos\<rparr>"
          with Some cv show ?thesis by simp
        next
          assume "u \<in> set (fst (checkUploads api rest (p\<lparr>db := d\<rparr>)))"
          from Cons.IH [OF this] show ?thesis by auto
        qed
      qed
    qed
  qed
qed

text \<open>
  C7. A video is new exactly when it has a publication time less than 15 minutes
  before the current time: one published 14 minutes 59 seconds ago is new, one
  published 15 minutes 1 second ago is not. Every entry that \<^verbatim>\<open>checkNewUploads\<close> reports
  belongs to a monitored channel and holds exactly the new videos among those fetched
  for it.
\<close>

theorem new_within_window:
  "isNewVideo now v = (\<exists>t. publishedAt v = Some t \<and> now - t < 15 * 60 * 1000)
   \<and> isNewVideo now (v\<lparr>publishedAt := Some (now - (14 * 60 + 59) * 1000)\<rparr>)
   \<and> \<not> isNewVideo now (v\<lparr>publishedAt := Some (now - (15 * 60 + 1) * 1000)\<rparr>)
   \<and> (\<forall>u \<in> set (fst (checkUploads api channels p)).
         \<exists>c \<in> set channels. \<exists>videos.
           fetchLatestVideos api (channel_id c) = Some (up_channel u, videos)
           \<and> up_videos u = filter (isNewVideo (clock p)) videos)"
  using isNewVideo_age [of now v] checkUploads_videos [of _ api channels p]
  by (simp add: isNewVideo_def)

theorem new_within_window_witness:
  "map up_videos (fst (checkUploads (example_youtube_api 5000000)
        [\<lparr>channel_id = ''UC1'', last_video_id = None\<rparr>] (constructor 5000000 empty_database)))
   = [[\<lparr>video_id = ''a'', video_title = ''fresh'', publishedAt = Some (5000000 - (14 * 60 + 59) * 1000)\<rparr>]]"
  using new_within_window [of 5000000 undefined "example_youtube_api 5000000"
          "[\<lparr>channel_id = ''UC1'', last_video_id = None\<rparr>]" "constructor 5000000 empty_database"]
  by (simp add: example_youtube_api_def fetchLatestVideos_def isNewVideo_def constructor_def
        empty_database_def updateLastVideoId_def)

section \<open>Destination configuration: upsert\<close>

lemma upsert_guilds: "set (map guild_id (upsert g t y rows)) = insert g (set (map guild_id rows))"
  by (induction rows) auto

lemma upsert_distinct:
  "distinct (map guild_id rows) \<Longrightarrow> distinct (map guild_id (upsert g t y rows))"
proof (induction rows)
  case Nil
  then show ?case by simp
next
  case (Cons r rows)
  then show ?case
    using upsert_guilds [of g t y rows] by auto
qed

lemma upsert_row:
  "distinct (map guild_id rows) \<Longrightarrow>
   filter (\<lambda>r. guild_id r = g) (upsert g t y rows)
     = [\<lparr>guild_id = g, twitter_channel_id = t, youtube_channel_id = y\<rparr>]"
proof (induction rows)
  case Nil
  then show ?case by simp
next
  case (Cons r rows)
  show ?case
  proof (cases "guild_id r = g")
    case True
    with Cons.prems have "g \<notin> set (map guild_id rows)" by simp
    then have "filter (\<lambda>r. guild_id r = g) rows = []"
      by (induction rows) auto
    with True show ?thesis by (cases r) simp
  next
    case False
    with Cons show ?thesis by simp
  qed
qed

lemma upsert_others:
  "filter (\<lambda>r. guild_id r \<noteq> g) (upsert g t y rows) = filter (\<lambda>r. guild_id r \<noteq> g) rows"
  by (induction rows) auto

lemma upsert_find:
  "find (\<lambda>r. guild_id r = g) (upsert g t y rows)
     = Some \<lparr>guild_id = g, twitter_channel_id = t, youtube_channel_id = y\<rparr>"
proof (induction rows)
  case Nil
  show ?case by simp
next
  case (Cons r rows)
  show ?case
  proof (cases "guild_id r = g")
    case True
    then show ?thesis by (cases r) simp
  next
    case False
    with Cons show ?thesis by simp
  qed
qed

text \<open>
  C8. On a connected database whose table has at most one row per guild, two
  successive writes for a guild both succeed, the second as an update; afterwards the
  table has exactly one row for the guild, with the values of the second write, which
  is also what \<^verbatim>\<open>getGuildChannels\<close> reads; the rows of the other guilds are as before,
  and the table still has at most one row per guild.
\<close>

theorem setup_twice_one_row:
  assumes "connected d" and "distinct (map guild_id (discord_channels d))"
  shows "\<exists>op1 d1 d2.
           setGuildChannels g t1 y1 d = Inr (op1, d1)
           \<and> setGuildChannels g t2 y2 d1 = Inr (Update, d2)
           \<and> filter (\<lambda>r. guild_id r = g) (discord_channels d2)
               = [\<lparr>guild_id = g, twitter_channel_id = t2, youtube_channel_id = y2\<rparr>]
           \<and> (g \<noteq> [] \<longrightarrow>
                getGuildChannels g d2
                  = Inr (Some \<lparr>guild_id = g, twitter_channel_id = t2, youtube_channel_id = y2\<rparr>))
           \<and> filter (\<lambda>r. guild_id r \<noteq> g) (discord_channels d2)
               = filter (\<lambda>r. guild_id r \<noteq> g) (discord_channels d)
           \<and> distinct (map guild_id (discord_channels d2))"
proof -
  define rows1 where "rows1 = upsert g t1 y1 (discord_channels d)"
  define d1 where "d1 = d\<lparr>discord_channels := rows1\<rparr>"
  define d2 where "d2 = d1\<lparr>discord_channels := upsert g t2 y2 rows1\<rparr>"
  have dist1: "distinct (map guild_id rows1)"
    unfolding rows1_def using assms(2) by (rule upsert_distinct)
  have first: "setGuildChannels g t1 y1 d
               = Inr (if find (\<lambda>r. guild_id r = g) (discord_channels d) \<noteq> None then Update else Insert, d1)"
    using assms(1) by (simp add: setGuildChannels_def Let_def d1_def rows1_def)
  have "find (\<lambda>r. guild_id r = g) rows1 \<noteq> None"
    unfolding rows1_def by (simp add: upsert_find)
  then have second: "setGuildChannels g t2 y2 d1 = Inr (Update, d2)"
    using assms(1) by (simp add: setGuildChannels_def Let_def d1_def d2_def)
  have row: "filter (\<lambda>r. guild_id r = g) (discord_channels d2)
             = [\<lparr>guild_id = g, twitter_channel_id = t2, youtube_channel_id = y2\<rparr>]"
    using upsert_row [OF dist1] by (simp add: d2_def d1_def)
  have read: "g \<noteq> [] \<longrightarrow>
                getGuildChannels g d2
                  = Inr (Some \<lparr>guild_id = g, twitter_channel_id = t2, youtube_channel_id = y2\<rparr>)"
    using assms(1) by (simp add: getGuildChannels_def d2_def d1_def upsert_find)
  have others: "filter (\<lambda>r. guild_id r \<noteq> g) (discord_channels d2)
                = filter (\<lambda>r. guild_id r \<noteq> g) (discord_channels d)"
    by (simp add: d2_def d1_def rows1_def upsert_others)
  have dist2: "distinct (map guild_id (discord_channels d2))"
    using upsert_distinct [OF dist1] by (simp add: d2_def d1_def)
  from first second row read others dist2 show ?thesis by blast
qed

theorem setup_twice_one_row_witness:
  "\<exists>d1 d2.
     setGuildChannels ''g1'' (Some ''c1'') (Some ''c2'') empty_database = Inr (Insert, d1)
     \<and> setGuildChannels ''g1'' (Some ''c3'') (Some ''c4'') d1 = Inr (Update, d2)
     \<and> discord_channels d2
         = [\<lparr>guild_id = ''g1'', twitter_channel_id = Some ''c3'', youtube_channel_id = Some ''c4''\<rparr>]
     \<and> getGuildChannels ''g1'' d2
         = Inr (Some \<lparr>guild_id = ''g1'', twitter_channel_id = Some ''c3'', youtube_channel_id = Some ''c4''\<rparr>)"
  using setup_twice_one_row [of empty_database "''g1''" "Some ''c1''" "Some ''c2''" "Some ''c3''" "Some ''c4''"]
  by (simp add: empty_database_def setGuildChannels_def getGuildChannels_def)

section \<open>Adding a source-B entity\<close>

lemma fetchLatestVideos_no_channel:
  "get_channels api channelId = Rejected
   \<or> get_channels api channelId = Responded None
   \<or> get_channels api channelId = Responded (Some []) \<Longrightarrow>
   fetchLatestVideos api channelId = None"
  by (auto simp: fetchLatestVideos_def)

lemma fetchLatestVideos_Some:
  "fetchLatestVideos api channelId = Some (channel, videos) \<Longrightarrow>
   \<exists>others. get_channels api channelId = Responded (Some (channel # others))"
  by (auto simp: fetchLatestVideos_def Let_def split: api_result.splits option.splits list.splits)

text \<open>
  C9. When the channel lookup fails or returns no channel, or the verification
  fails later, the \<^verbatim>\<open>add\<close> subcommand leaves the database as it was and replies that
  the channel could not be found. When the database has changed, the channel lookup
  had returned a channel, the verification had succeeded, and the change is the
  insertion of that channel id.
\<close>

theorem add_only_after_verification:
  "(get_channels api channelId = Rejected
    \<or> get_channels api channelId = Responded None
    \<or> get_channels api channelId = Responded (Some [])
    \<or> fetchLatestVideos api channelId = None
    \<longrightarrow> execute_add api channelId d
         = (Inr ''Could not find the YouTube channel. Please verify the Channel ID.'', d))
   \<and> (snd (execute_add api channelId d) \<noteq> d
        \<longrightarrow> (\<exists>channel others. get_channels api channelId = Responded (Some (channel # others)))
            \<and> fetchLatestVideos api channelId \<noteq> None
            \<and> addYoutubeChannel channelId d = Inr (snd (execute_add api channelId d)))"
proof (intro conjI impI)
  assume "get_channels api channelId = Rejected
    \<or> get_channels api channelId = Responded None
    \<or> get_channels api channelId = Responded (Some [])
    \<or> fetchLatestVideos api channelId = None"
  then have "fetchLatestVideos api channelId = None"
    using fetchLatestVideos_no_channel [of api channelId] by blast
  then show "execute_add api channelId d
         = (Inr ''Could not find the YouTube channel. Please verify the Channel ID.'', d)"
    by (simp add: execute_add_def)
next
  assume changed: "snd (execute_add api channelId d) \<noteq> d"
  then obtain channel videos where f: "fetchLatestVideos api channelId = Some (channel, videos)"
    by (cases "fetchLatestVideos api channelId") (auto simp: execute_add_def)
  from fetchLatestVideos_Some [OF f]
  show "\<exists>channel others. get_channels api channelId = Responded (Some (channel # others))"
    by blast
  from f show "fetchLatestVideos api channelId \<noteq> None" by simp
  from changed f show "addYoutubeChannel channelId d = Inr (snd (execute_add api channelId d))"
    by (cases "addYoutubeChannel channelId d") (auto simp: execute_add_def)
qed

theorem add_only_after_verification_witness:
  "execute_add unreachable_youtube_api ''UC1'' empty_database
     = (Inr ''Could not find the YouTube channel. Please verify the Channel ID.'', empty_database)
   \<and> snd (execute_add (example_youtube_api 0) ''UC1'' empty_database) \<noteq> empty_database
   \<and> youtube_channels (snd (execute_add (example_youtube_api 0) ''UC1'' empty_database))
       = [\<lparr>channel_id = ''UC1'', last_video_id = None\<rparr>]
   \<and> get_channels (example_youtube_api 0) ''UC1''
       = Responded (Some [\<lparr>yt_id = ''UC1'', yt_title = ''Channel'', uploads = ''UU1''\<rparr>])"
proof -
  have rejected: "get_channels unreachable_youtube_api ''UC1'' = Rejected"
    by (simp add: unreachable_youtube_api_def)
  have added: "execute_add (example_youtube_api 0) ''UC1'' empty_database
               = (Inr (''Now monitoring YouTube channel: Channel'' @ [CHR 0x0A] @ ''Channel ID: UC1''),
                  empty_database\<lparr>youtube_channels := [\<lparr>channel_id = ''UC1'', last_video_id = None\<rparr>]\<rparr>)"
    by (simp add: execute_add_def example_youtube_api_def fetchLatestVideos_def addYoutubeChannel_def
          empty_database_def)
  have "youtube_channels (snd (execute_add (example_youtube_api 0) ''UC1'' empty_database))
          \<noteq> youtube_channels empty_database"
    by (simp add: added) (simp add: empty_database_def)
  then have changed: "snd (execute_add (example_youtube_api 0) ''UC1'' empty_database) \<noteq> empty_database"
    by auto
  from add_only_after_verification [of unreachable_youtube_api "''UC1''" empty_database] rejected
  have refused: "execute_add unreachable_youtube_api ''UC1'' empty_database
     = (Inr ''Could not find the YouTube channel. Please verify the Channel ID.'', empty_database)"
    by blast
  have channel: "get_channels (example_youtube_api 0) ''UC1''
       = Responded (Some [\<lparr>yt_id = ''UC1'', yt_title = ''Channel'', uploads = ''UU1''\<rparr>])"
    by (simp add: example_youtube_api_def)
  have rows: "youtube_channels (snd (execute_add (example_youtube_api 0) ''UC1'' empty_database))
       = [\<lparr>channel_id = ''UC1'', last_video_id = None\<rparr>]"
    by (simp add: added)
  from refused changed rows channel show ?thesis
    by (intro conjI)
qed

end
